theory Spec2Isabelle
  imports Main "HOL-Library.Word" "HOL-Library.Sublist"
begin

section \<open>Protobuf messages exchanged with the core\<close>

text \<open>
  Modelled from the spec: the message types of \<^verbatim>\<open>ProtobufMessage\<close>, which is generated
  code and not among the sources. The fields are those of the request and response
  envelopes of the wire codec, as \<^verbatim>\<open>BaseClient.ts\<close> and the cluster client read and
  build them. A field that may be \<^verbatim>\<open>null\<close> or \<^verbatim>\<open>undefined\<close> is an \<open>option\<close>; an
  enum value the client does not name is kept as a number.
\<close>

type_synonym byte = "8 word"

datatype RequestErrorType = Unspecified | ExecAbort | Timeout | Disconnect
  | OtherErrorType nat

datatype ConstantResponse = OK | OtherConstant nat

text \<open>
  \<^verbatim>\<open>respPointer\<close> is a \<^verbatim>\<open>number\<close> or a \<^verbatim>\<open>Long\<close> with the signed fields high and
  low.
\<close>

datatype Pointer = Number int | Long int int

record response_RequestError =
  errorType :: "RequestErrorType option"
  message :: "string option"

record Response =
  callbackIdx :: nat
  closingError :: "string option"
  requestError :: "response_RequestError option"
  respPointer :: "Pointer option"
  constantResponse :: "ConstantResponse option"

text \<open>A command is built by the command builders and is opaque to the client.\<close>

datatype Command = Command nat "string list"

datatype ScriptInvocation = ScriptInvocation string "string list" "string list"

datatype SimpleRoutes = AllNodes | AllPrimaries | Random

datatype SlotTypes = Primary | Replica

text \<open>
  JavaScript stores whatever object it is given under a field, so the two route fields of
  \<^verbatim>\<open>redis_request.Routes\<close> hold a value that is either message.
\<close>

datatype RouteMessage = SlotKeyRoute SlotTypes string | SlotIdRoute SlotTypes int

record pb_Routes =
  simpleRoutes :: "SimpleRoutes option"
  slotKeyRoute :: "RouteMessage option"
  slotIdRoute :: "RouteMessage option"

record RedisRequest =
  req_callbackIdx :: nat
  singleCommand :: "Command option"
  transaction :: "Command list option"
  scriptInvocation :: "ScriptInvocation option"
  route :: "pb_Routes option"

text \<open>
  What the request writer holds: delimited messages in the order they were encoded. The
  connection request is built from the client's options and is kept as a string.
\<close>

datatype wire_message = RedisRequestMsg RedisRequest | ConnectionRequestMsg string

section \<open>Errors and promises\<close>

text \<open>
  Modelled from the spec: the error classes of \<^verbatim>\<open>Errors\<close>, which is not among the
  sources; an error is its class and its optional message.
\<close>

datatype ErrorClass = ClosingError | ConnectionError | ExecAbortError | TimeoutError
  | RequestError

datatype RedisError = RedisError ErrorClass "string option"

text \<open>
  What a promise is resolved with: the string \<^verbatim>\<open>"OK"\<close>, \<^verbatim>\<open>null\<close>, or the value
  the native helper \<^verbatim>\<open>valueFromSplitPointer(high, low)\<close> materialises.
\<close>

datatype ReturnValue = OkString | Null | ValueFromSplitPointer int int

datatype settlement = Resolved ReturnValue | Rejected RedisError

type_synonym promise = nat

section \<open>The client\<close>

text \<open>
  The fields of \<^verbatim>\<open>BaseClient\<close>, then the socket (the buffers handed to
  \<^verbatim>\<open>socket.write\<close> in call order, the write callbacks not yet fired, the calls of
  \<^verbatim>\<open>socket.end\<close>) and the promises (the log of settlements in the order they took
  effect, and the next promise to allocate). \<^verbatim>\<open>promiseCallbackFunctions\<close> is a
  JavaScript array: an element is the resolve/reject pair of a promise, or a hole.
\<close>

record client =
  promiseCallbackFunctions :: "promise option list"
  availableCallbackSlots :: "nat list"
  requestWriter :: "wire_message list"
  writeInProgress :: bool
  remainingReadData :: "byte list option"
  isClosed :: bool
  socketWrites :: "wire_message list list"
  socketWriteCallbacks :: nat
  socketEnded :: nat
  settled :: "(promise \<times> settlement) list"
  nextPromise :: nat

definition newClient :: client where
  "newClient = \<lparr>promiseCallbackFunctions = [], availableCallbackSlots = [],
     requestWriter = [], writeInProgress = False, remainingReadData = None,
     isClosed = False, socketWrites = [], socketWriteCallbacks = 0, socketEnded = 0,
     settled = [], nextPromise = 0\<rparr>"

text \<open>A promise settles once: resolve and reject of a settled promise do nothing.\<close>

definition is_settled :: "client \<Rightarrow> promise \<Rightarrow> bool" where
  "is_settled s p = (p \<in> fst ` set (settled s))"

definition settle :: "promise \<Rightarrow> settlement \<Rightarrow> client \<Rightarrow> client" where
  "settle p v s = (if is_settled s p then s else s\<lparr>settled := settled s @ [(p, v)]\<rparr>)"

text \<open>Reading and writing a JavaScript array by index.\<close>

definition js_get :: "'a option list \<Rightarrow> nat \<Rightarrow> 'a option" where
  "js_get xs i = (if i < length xs then xs ! i else None)"

definition js_set :: "'a option list \<Rightarrow> nat \<Rightarrow> 'a \<Rightarrow> 'a option list" where
  "js_set xs i v =
     (if i < length xs then xs[i := Some v]
      else xs @ replicate (i - length xs) None @ [Some v])"

subsection \<open>getRequestErrorClass\<close>

fun getRequestErrorClass :: "RequestErrorType option \<Rightarrow> ErrorClass" where
  "getRequestErrorClass (Some Disconnect) = ConnectionError"
| "getRequestErrorClass (Some ExecAbort) = ExecAbortError"
| "getRequestErrorClass (Some Timeout) = TimeoutError"
| "getRequestErrorClass (Some Unspecified) = RequestError"
| "getRequestErrorClass _ = RequestError"

subsection \<open>close\<close>

definition rejectEntry :: "string option \<Rightarrow> promise option \<Rightarrow> client \<Rightarrow> client" where
  "rejectEntry errorMessage entry s =
     (case entry of None \<Rightarrow> s
      | Some p \<Rightarrow> settle p (Rejected (RedisError ClosingError errorMessage)) s)"

definition close :: "client \<Rightarrow> string option \<Rightarrow> client" where
  "close s errorMessage =
     (let s1 = s\<lparr>isClosed := True\<rparr>;
          s2 = fold (rejectEntry errorMessage) (promiseCallbackFunctions s1) s1
      in s2\<lparr>socketEnded := Suc (socketEnded s2)\<rparr>)"

subsection \<open>handleReadData\<close>

text \<open>
  \<^verbatim>\<open>response.Response.decodeDelimited\<close> is the protobuf library's: a parameter
  \<open>dec\<close>, applied to the bytes from the reader's position on. It throws a RangeError,
  throws something else, or returns a message and the number of bytes it read.
\<close>

datatype decoded = RangeError | OtherError string | Decoded Response nat

text \<open>How the loop of \<^verbatim>\<open>handleReadData\<close> is left: the reader is at the end of the buffer,
  a RangeError keeps the rest of the buffer for the next chunk, a \<^verbatim>\<open>return\<close> after
  \<^verbatim>\<open>close\<close>, or an exception that nothing catches.\<close>

datatype js_exception = TypeError

datatype read_exit = Drained | NeedMore | Returned | Thrown js_exception

text \<open>
  The loop body after a message has been decoded: \<open>Inl\<close> leaves the function,
  \<open>Inr\<close> goes on with the loop. Destructuring \<^verbatim>\<open>undefined\<close> throws a TypeError,
  before the index is pushed.
\<close>

definition processMessage :: "client \<Rightarrow> Response \<Rightarrow> (read_exit \<times> client) + client" where
  "processMessage s m =
     (if closingError m \<noteq> None then Inl (Returned, close s (closingError m))
      else case js_get (promiseCallbackFunctions s) (callbackIdx m) of
        None \<Rightarrow> Inl (Thrown TypeError, s)
      | Some p \<Rightarrow>
          let s1 = s\<lparr>availableCallbackSlots := availableCallbackSlots s @ [callbackIdx m]\<rparr>
          in Inr (case requestError m of
               Some e \<Rightarrow>
                 settle p (Rejected (RedisError (getRequestErrorClass (errorType e)) (message e))) s1
             | None \<Rightarrow>
                 (case respPointer m of
                    Some (Number pointer) \<Rightarrow> settle p (Resolved (ValueFromSplitPointer 0 pointer)) s1
                  | Some (Long high low) \<Rightarrow> settle p (Resolved (ValueFromSplitPointer high low)) s1
                  | None \<Rightarrow>
                      if constantResponse m = Some OK then settle p (Resolved OkString) s1
                      else settle p (Resolved Null) s1)))"

partial_function (option) handleLoop ::
  "(byte list \<Rightarrow> decoded) \<Rightarrow> client \<Rightarrow> byte list \<Rightarrow> (read_exit \<times> client) option" where
  "handleLoop dec s buf =
     (if buf = [] then Some (Drained, s\<lparr>remainingReadData := None\<rparr>)
      else case dec buf of
        RangeError \<Rightarrow> Some (NeedMore, s\<lparr>remainingReadData := Some buf\<rparr>)
      | OtherError err \<Rightarrow>
          Some (Returned, close s (Some (''Failed to decode the response: '' @ err)))
      | Decoded m n \<Rightarrow>
          (case processMessage s m of
             Inl r \<Rightarrow> Some r
           | Inr s1 \<Rightarrow> handleLoop dec s1 (drop n buf)))"

declare handleLoop.simps [code]

text \<open>The buffer \<^verbatim>\<open>buf\<close>: the bytes kept from the last chunk, then the new chunk.\<close>

definition readBuffer :: "client \<Rightarrow> byte list \<Rightarrow> byte list" where
  "readBuffer s data = (case remainingReadData s of None \<Rightarrow> data | Some r \<Rightarrow> r @ data)"

definition handleReadData ::
  "(byte list \<Rightarrow> decoded) \<Rightarrow> client \<Rightarrow> byte list \<Rightarrow> (read_exit \<times> client) option" where
  "handleReadData dec s data = handleLoop dec s (readBuffer s data)"

text \<open>
  The socket's data events, one chunk each. A TypeError that escapes the listener is an
  uncaught exception: no later chunk is handled.
\<close>

fun feed ::
  "(byte list \<Rightarrow> decoded) \<Rightarrow> client \<Rightarrow> byte list list \<Rightarrow> (js_exception option \<times> client) option" where
  "feed dec s [] = Some (None, s)"
| "feed dec s (c # cs) =
     (case handleReadData dec s c of
        None \<Rightarrow> None
      | Some (Thrown err, s1) \<Rightarrow> Some (Some err, s1)
      | Some (ex, s1) \<Rightarrow> feed dec s1 cs)"

text \<open>
  Modelled from the spec: \<^verbatim>\<open>response.Response.decodeDelimited\<close>, the decoder of the
  response envelope (a callback index, then one of: a constant, a value pointer, a
  request error, a closing error). It is generated code over the reader of the protobuf
  library; neither is among the sources. The model follows the reader byte by byte on
  the length prefix, on the varint fields \<^verbatim>\<open>callback_idx\<close> (1), \<^verbatim>\<open>resp_pointer\<close> (2, up
  to four bytes) and \<^verbatim>\<open>constant_response\<close> (3, the constant OK), and on skipping an
  unknown field of wire type 1, 2 or 5. Everywhere else (request and closing errors,
  other constants, longer pointers, other wire types) it says nothing: \<open>None\<close>.

  The reader indexes its buffer without a bounds check: past the end it reads
  \<^verbatim>\<open>undefined\<close>, whose bits are 0 and which is not below 128.
\<close>

definition byteAt :: "byte list \<Rightarrow> nat \<Rightarrow> nat option" where
  "byteAt buf pos = (if pos < length buf then Some (unat (buf ! pos)) else None)"

text \<open>\<^verbatim>\<open>b & (k - 1)\<close> for a power of two \<open>k\<close>, and \<^verbatim>\<open>b < 128\<close>.\<close>

definition lowBits :: "nat \<Rightarrow> nat option \<Rightarrow> nat" where
  "lowBits k b = (case b of None \<Rightarrow> 0 | Some x \<Rightarrow> x mod k)"

definition isLast :: "nat option \<Rightarrow> bool" where
  "isLast b = (case b of None \<Rightarrow> False | Some x \<Rightarrow> x < 128)"

text \<open>A read returns a value and the new position, or throws the reader's RangeError.\<close>

datatype 'a reading = Reading 'a nat | IndexOutOfRange

text \<open>
  \<^verbatim>\<open>Reader.uint32\<close>: up to five bytes are read, the bits of each are put above those
  of the one before (the ranges are disjoint, so the bitwise or is a sum); only after a
  fifth byte that is not the last does the reader look at the length of the buffer.
\<close>

definition uint32 :: "byte list \<Rightarrow> nat \<Rightarrow> nat reading" where
  "uint32 buf pos =
     (let b0 = byteAt buf pos; v0 = lowBits 128 b0 in
      if isLast b0 then Reading v0 (pos + 1) else
      let b1 = byteAt buf (pos + 1); v1 = v0 + lowBits 128 b1 * 2 ^ 7 in
      if isLast b1 then Reading v1 (pos + 2) else
      let b2 = byteAt buf (pos + 2); v2 = v1 + lowBits 128 b2 * 2 ^ 14 in
      if isLast b2 then Reading v2 (pos + 3) else
      let b3 = byteAt buf (pos + 3); v3 = v2 + lowBits 128 b3 * 2 ^ 21 in
      if isLast b3 then Reading v3 (pos + 4) else
      let b4 = byteAt buf (pos + 4); v4 = v3 + lowBits 16 b4 * 2 ^ 28 in
      if isLast b4 then Reading v4 (pos + 5)
      else if length buf < pos + 10 then IndexOutOfRange else Reading v4 (pos + 10))"

text \<open>
  \<^verbatim>\<open>Reader.uint64\<close>, that is \<^verbatim>\<open>readLongVarint\<close> made a \<^verbatim>\<open>Long\<close>, for a varint of at
  most four bytes. With more than four bytes left the reader takes its fast route. With
  four or fewer it checks the position before each of the first three bytes, and reads the
  fourth without a check.
\<close>

definition uint64 :: "byte list \<Rightarrow> nat \<Rightarrow> Pointer reading option" where
  "uint64 buf pos =
     (if 4 < length buf - pos then
        (let b0 = byteAt buf pos; lo0 = lowBits 128 b0 in
         if isLast b0 then Some (Reading (Long 0 (int lo0)) (pos + 1)) else
         let b1 = byteAt buf (pos + 1); lo1 = lo0 + lowBits 128 b1 * 2 ^ 7 in
         if isLast b1 then Some (Reading (Long 0 (int lo1)) (pos + 2)) else
         let b2 = byteAt buf (pos + 2); lo2 = lo1 + lowBits 128 b2 * 2 ^ 14 in
         if isLast b2 then Some (Reading (Long 0 (int lo2)) (pos + 3)) else
         let b3 = byteAt buf (pos + 3); lo3 = lo2 + lowBits 128 b3 * 2 ^ 21 in
         if isLast b3 then Some (Reading (Long 0 (int lo3)) (pos + 4)) else None)
      else
        (if length buf \<le> pos then Some IndexOutOfRange else
         let b0 = byteAt buf pos; lo0 = lowBits 128 b0 in
         if isLast b0 then Some (Reading (Long 0 (int lo0)) (pos + 1)) else
         if length buf \<le> pos + 1 then Some IndexOutOfRange else
         let b1 = byteAt buf (pos + 1); lo1 = lo0 + lowBits 128 b1 * 2 ^ 7 in
         if isLast b1 then Some (Reading (Long 0 (int lo1)) (pos + 2)) else
         if length buf \<le> pos + 2 then Some IndexOutOfRange else
         let b2 = byteAt buf (pos + 2); lo2 = lo1 + lowBits 128 b2 * 2 ^ 14 in
         if isLast b2 then Some (Reading (Long 0 (int lo2)) (pos + 3)) else
         let b3 = byteAt buf (pos + 3); lo3 = lo2 + lowBits 128 b3 * 2 ^ 21 in
         Some (Reading (Long 0 (int lo3)) (pos + 4))))"

text \<open>\<^verbatim>\<open>Reader.skip(length)\<close> and \<^verbatim>\<open>Reader.skipType(wireType)\<close>.\<close>

definition skip :: "byte list \<Rightarrow> nat \<Rightarrow> nat \<Rightarrow> unit reading" where
  "skip buf pos n = (if length buf < pos + n then IndexOutOfRange else Reading () (pos + n))"

definition skipType :: "byte list \<Rightarrow> nat \<Rightarrow> nat \<Rightarrow> unit reading option" where
  "skipType buf pos wireType =
     (if wireType = 1 then Some (skip buf pos 8)
      else if wireType = 2 then
        (case uint32 buf pos of
           IndexOutOfRange \<Rightarrow> Some IndexOutOfRange
         | Reading n p \<Rightarrow> Some (skip buf p n))
      else if wireType = 5 then Some (skip buf pos 4)
      else None)"

text \<open>
  \<^verbatim>\<open>Response.decode(reader, length)\<close>: fields are read while the position is before
  \<open>fin\<close>, the position of the length prefix's end plus the length; \<open>fin\<close> is not
  compared with the length of the buffer. Each round reads at least one byte, so the
  rounds are at most \<open>length\<close>, the fuel given by \<open>decodeDelimited\<close>.
\<close>

fun decodeFields :: "nat \<Rightarrow> byte list \<Rightarrow> nat \<Rightarrow> nat \<Rightarrow> Response \<Rightarrow> decoded option" where
  "decodeFields fuel buf fin pos m =
     (if fin \<le> pos then Some (Decoded m pos)
      else if fuel = 0 then None
      else case uint32 buf pos of
        IndexOutOfRange \<Rightarrow> Some RangeError
      | Reading tag p \<Rightarrow>
          (if tag div 8 = 1 then
             (case uint32 buf p of
                IndexOutOfRange \<Rightarrow> Some RangeError
              | Reading v q \<Rightarrow> decodeFields (fuel - 1) buf fin q (m\<lparr>callbackIdx := v\<rparr>))
           else if tag div 8 = 2 then
             (case uint64 buf p of
                None \<Rightarrow> None
              | Some IndexOutOfRange \<Rightarrow> Some RangeError
              | Some (Reading v q) \<Rightarrow>
                  decodeFields (fuel - 1) buf fin q (m\<lparr>respPointer := Some v\<rparr>))
           else if tag div 8 = 3 then
             (case uint32 buf p of
                IndexOutOfRange \<Rightarrow> Some RangeError
              | Reading v q \<Rightarrow>
                  if v = 0 then decodeFields (fuel - 1) buf fin q (m\<lparr>constantResponse := Some OK\<rparr>)
                  else None)
           else if tag div 8 = 4 \<or> tag div 8 = 5 then None
           else
             (case skipType buf p (tag mod 8) of
                None \<Rightarrow> None
              | Some IndexOutOfRange \<Rightarrow> Some RangeError
              | Some (Reading u q) \<Rightarrow> decodeFields (fuel - 1) buf fin q m)))"

definition emptyResponse :: Response where
  "emptyResponse = \<lparr>callbackIdx = 0, closingError = None, requestError = None,
     respPointer = None, constantResponse = None\<rparr>"

definition decodeDelimited :: "byte list \<Rightarrow> decoded option" where
  "decodeDelimited buf =
     (case uint32 buf 0 of
        IndexOutOfRange \<Rightarrow> Some RangeError
      | Reading len pos \<Rightarrow> decodeFields len buf (pos + len) pos emptyResponse)"

text \<open>A decoder that is the model where the model speaks.\<close>

definition modelDecoder :: "byte list \<Rightarrow> decoded" where
  "modelDecoder buf =
     (case decodeDelimited buf of Some d \<Rightarrow> d | None \<Rightarrow> OtherError ''outside the model'')"

subsection \<open>The write path\<close>

definition getCallbackIndex :: "client \<Rightarrow> nat \<times> client" where
  "getCallbackIndex s =
     (if availableCallbackSlots s = [] then (length (promiseCallbackFunctions s), s)
      else (last (availableCallbackSlots s),
            s\<lparr>availableCallbackSlots := butlast (availableCallbackSlots s)\<rparr>))"

definition writeBufferedRequestsToSocket :: "client \<Rightarrow> client" where
  "writeBufferedRequestsToSocket s =
     s\<lparr>writeInProgress := True,
       requestWriter := [],
       socketWrites := socketWrites s @ [requestWriter s],
       socketWriteCallbacks := Suc (socketWriteCallbacks s)\<rparr>"

text \<open>The callback given to \<^verbatim>\<open>socket.write\<close>, run when the socket has taken the buffer.\<close>

definition socketWriteCallback :: "client \<Rightarrow> client" where
  "socketWriteCallback s =
     (let s1 = s\<lparr>socketWriteCallbacks := socketWriteCallbacks s - 1\<rparr>
      in if requestWriter s1 \<noteq> [] then writeBufferedRequestsToSocket s1
         else s1\<lparr>writeInProgress := False\<rparr>)"

definition writeOrBufferRequest :: "client \<Rightarrow> wire_message \<Rightarrow> client" where
  "writeOrBufferRequest s msg =
     (let s1 = s\<lparr>requestWriter := requestWriter s @ [msg]\<rparr>
      in if writeInProgress s1 then s1 else writeBufferedRequestsToSocket s1)"

text \<open>The \<^verbatim>\<open>command\<close> argument: a command, an array of commands, or a script invocation.\<close>

datatype CommandArg = Single Command | Batch "Command list" | Script ScriptInvocation

fun createRedisRequest :: "nat \<Rightarrow> CommandArg \<Rightarrow> RedisRequest" where
  "createRedisRequest idx (Batch commands) =
     \<lparr>req_callbackIdx = idx, singleCommand = None, transaction = Some commands,
      scriptInvocation = None, route = None\<rparr>"
| "createRedisRequest idx (Single command) =
     \<lparr>req_callbackIdx = idx, singleCommand = Some command, transaction = None,
      scriptInvocation = None, route = None\<rparr>"
| "createRedisRequest idx (Script script) =
     \<lparr>req_callbackIdx = idx, singleCommand = None, transaction = None,
      scriptInvocation = Some script, route = None\<rparr>"

definition writeOrBufferRedisRequest ::
  "client \<Rightarrow> nat \<Rightarrow> CommandArg \<Rightarrow> pb_Routes option \<Rightarrow> client" where
  "writeOrBufferRedisRequest s idx command rt =
     writeOrBufferRequest s (RedisRequestMsg ((createRedisRequest idx command)\<lparr>route := rt\<rparr>))"

definition closedMessage :: string where
  "closedMessage = ''Unable to execute requests; the client is closed. Please create a new client.''"

text \<open>\<open>Inl\<close> is the error thrown before anything is changed.\<close>

definition createWritePromise ::
  "client \<Rightarrow> CommandArg \<Rightarrow> pb_Routes option \<Rightarrow> RedisError + (promise \<times> client)" where
  "createWritePromise s command rt =
     (if isClosed s then Inl (RedisError ClosingError (Some closedMessage))
      else
        let p = nextPromise s;
            s0 = s\<lparr>nextPromise := Suc p\<rparr>;
            (callbackIndex, s1) = getCallbackIndex s0;
            s2 = s1\<lparr>promiseCallbackFunctions :=
                      js_set (promiseCallbackFunctions s1) callbackIndex p\<rparr>
        in Inr (p, writeOrBufferRedisRequest s2 callbackIndex command rt))"

definition connectToServer :: "client \<Rightarrow> string \<Rightarrow> promise \<times> client" where
  "connectToServer s request =
     (let p = nextPromise s;
          s1 = s\<lparr>nextPromise := Suc p,
                 promiseCallbackFunctions := js_set (promiseCallbackFunctions s) 0 p\<rparr>
      in (p, writeOrBufferRequest s1 (ConnectionRequestMsg request)))"

section \<open>The cluster client\<close>

datatype SlotIdType = primarySlotId | replicaSlotId

datatype SlotKeyType = primarySlotKey | replicaSlotKey

datatype SingleNodeRoute = randomNode | SlotIdTypes SlotIdType int | SlotKeyTypes SlotKeyType string

datatype Routes = SingleNode SingleNodeRoute | allPrimaries | allNodes

definition Routes_create :: pb_Routes where
  "Routes_create = \<lparr>simpleRoutes = None, slotKeyRoute = None, slotIdRoute = None\<rparr>"

fun toProtobufRoute :: "Routes option \<Rightarrow> pb_Routes option" where
  "toProtobufRoute None = None"
| "toProtobufRoute (Some allPrimaries) = Some (Routes_create\<lparr>simpleRoutes := Some AllPrimaries\<rparr>)"
| "toProtobufRoute (Some allNodes) = Some (Routes_create\<lparr>simpleRoutes := Some AllNodes\<rparr>)"
| "toProtobufRoute (Some (SingleNode randomNode)) =
     Some (Routes_create\<lparr>simpleRoutes := Some Random\<rparr>)"
| "toProtobufRoute (Some (SingleNode (SlotKeyTypes primarySlotKey key))) =
     Some (Routes_create\<lparr>slotKeyRoute := Some (SlotKeyRoute Primary key)\<rparr>)"
| "toProtobufRoute (Some (SingleNode (SlotKeyTypes replicaSlotKey key))) =
     Some (Routes_create\<lparr>slotKeyRoute := Some (SlotKeyRoute Replica key)\<rparr>)"
| "toProtobufRoute (Some (SingleNode (SlotIdTypes primarySlotId slotId))) =
     Some (Routes_create\<lparr>slotKeyRoute := Some (SlotIdRoute Primary slotId)\<rparr>)"
| "toProtobufRoute (Some (SingleNode (SlotIdTypes replicaSlotId slotId))) =
     Some (Routes_create\<lparr>slotKeyRoute := Some (SlotIdRoute Replica slotId)\<rparr>)"

definition exec ::
  "client \<Rightarrow> Command list \<Rightarrow> SingleNodeRoute option \<Rightarrow> RedisError + (promise \<times> client)" where
  "exec s commands rt =
     createWritePromise s (Batch commands) (toProtobufRoute (map_option SingleNode rt))"

section \<open>Runs of the write path\<close>

text \<open>
  Every submission (\<^verbatim>\<open>createWritePromise\<close>, \<^verbatim>\<open>connectToServer\<close>) reaches the socket
  through \<^verbatim>\<open>writeOrBufferRequest\<close>, and nothing else touches the request writer. A
  run of the write path is a sequence of calls of \<^verbatim>\<open>writeOrBufferRequest\<close> and of
  firings of the socket's write callback; the callback fires only for a write that was
  issued.
\<close>

datatype write_event = Submit wire_message | SocketWritten

fun writeRun :: "client \<Rightarrow> write_event list \<Rightarrow> client option" where
  "writeRun s [] = Some s"
| "writeRun s (Submit msg # evs) = writeRun (writeOrBufferRequest s msg) evs"
| "writeRun s (SocketWritten # evs) =
     (if socketWriteCallbacks s = 0 then None else writeRun (socketWriteCallback s) evs)"

fun submitted :: "write_event list \<Rightarrow> wire_message list" where
  "submitted [] = []"
| "submitted (Submit msg # evs) = msg # submitted evs"
| "submitted (SocketWritten # evs) = submitted evs"

definition write_inv :: "client \<Rightarrow> bool" where
  "write_inv s \<longleftrightarrow>
     socketWriteCallbacks s \<le> 1 \<and>
     (writeInProgress s \<longleftrightarrow> socketWriteCallbacks s = 1) \<and>
     (\<not> writeInProgress s \<longrightarrow> requestWriter s = []) \<and>
     [] \<notin> set (socketWrites s)"

definition transmitted :: "client \<Rightarrow> wire_message list" where
  "transmitted s = concat (socketWrites s) @ requestWriter s"

section \<open>Runs of the client\<close>

text \<open>
  What happens to a client: its connection request, a command, a decoded response frame
  handed to the loop body of \<^verbatim>\<open>handleReadData\<close>, \<^verbatim>\<open>close\<close>, the socket's write
  callback. A command on a closed client throws and changes nothing.
\<close>

datatype event = Connect string | Request CommandArg "pb_Routes option" | Frame Response
  | Close "string option" | Written

fun step :: "client \<Rightarrow> event \<Rightarrow> client" where
  "step s (Connect request) = snd (connectToServer s request)"
| "step s (Request command rt) =
     (case createWritePromise s command rt of Inl err \<Rightarrow> s | Inr (p, s1) \<Rightarrow> s1)"
| "step s (Frame m) = (case processMessage s m of Inl (ex, s1) \<Rightarrow> s1 | Inr s1 \<Rightarrow> s1)"
| "step s (Close errorMessage) = close s errorMessage"
| "step s Written = (if socketWriteCallbacks s = 0 then s else socketWriteCallback s)"

fun run :: "client \<Rightarrow> event list \<Rightarrow> client" where
  "run s [] = s"
| "run s (ev # evs) = run (step s ev) evs"

text \<open>
  An index awaits its response when it is registered and not on the free stack. A run
  conforms when the connection request is the first thing a client sends, and every
  frame without a closing error answers an index that awaits its response: the core
  answers a request once.
\<close>

definition awaiting :: "client \<Rightarrow> nat \<Rightarrow> bool" where
  "awaiting s i \<longleftrightarrow>
     js_get (promiseCallbackFunctions s) i \<noteq> None \<and> i \<notin> set (availableCallbackSlots s)"

fun expected :: "client \<Rightarrow> event \<Rightarrow> bool" where
  "expected s (Connect request) = (promiseCallbackFunctions s = [])"
| "expected s (Frame m) = (closingError m \<noteq> None \<or> awaiting s (callbackIdx m))"
| "expected s ev = True"

fun conforms :: "client \<Rightarrow> event list \<Rightarrow> bool" where
  "conforms s [] = True"
| "conforms s (ev # evs) = (expected s ev \<and> conforms (step s ev) evs)"

text \<open>The invariant of the callback table and the free stack.\<close>

definition slots_inv :: "client \<Rightarrow> bool" where
  "slots_inv s \<longleftrightarrow>
     distinct (availableCallbackSlots s) \<and>
     distinct (promiseCallbackFunctions s) \<and>
     (\<forall>i \<in> set (availableCallbackSlots s).
        \<exists>q. js_get (promiseCallbackFunctions s) i = Some q \<and> is_settled s q) \<and>
     (\<forall>i < length (promiseCallbackFunctions s).
        \<exists>q. promiseCallbackFunctions s ! i = Some q \<and> q < nextPromise s) \<and>
     (\<forall>p < nextPromise s. \<not> is_settled s p \<longrightarrow> Some p \<in> set (promiseCallbackFunctions s))"

section \<open>Sample states and frames\<close>

text \<open>A client that has sent its connection request and waits for the answer.\<close>

definition sampleClient :: client where
  "sampleClient = snd (connectToServer newClient ''connect'')"

definition closingFrame :: Response where
  "closingFrame = \<lparr>callbackIdx = 0, closingError = Some ''core failed'', requestError = None,
     respPointer = None, constantResponse = None\<rparr>"

definition timeoutFrame :: Response where
  "timeoutFrame = \<lparr>callbackIdx = 0, closingError = None,
     requestError = Some \<lparr>errorType = Some Timeout, message = Some ''timed out''\<rparr>,
     respPointer = None, constantResponse = None\<rparr>"

definition nullFrame :: Response where
  "nullFrame = \<lparr>callbackIdx = 0, closingError = None, requestError = None,
     respPointer = None, constantResponse = None\<rparr>"

definition msgA :: wire_message where "msgA = ConnectionRequestMsg ''a''"
definition msgB :: wire_message where "msgB = ConnectionRequestMsg ''b''"
definition msgC :: wire_message where "msgC = ConnectionRequestMsg ''c''"

definition okFrame :: Response where
  "okFrame = \<lparr>callbackIdx = 0, closingError = None, requestError = None, respPointer = None,
     constantResponse = Some OK\<rparr>"

definition duplicateRun :: "event list" where
  "duplicateRun = [Request (Single (Command 1 [''a''])) None, Frame okFrame, Frame okFrame,
     Request (Single (Command 1 [''b''])) None]"

definition conformingRun :: "event list" where
  "conformingRun = [Connect ''connect'', Frame okFrame, Request (Single (Command 1 [''a''])) None,
     Request (Single (Command 1 [''b''])) None, Frame okFrame]"

text \<open>
  A length-prefixed codec for the examples: one length byte, then a payload of an index
  byte and a kind byte (0 for OK, 1 for a timeout error, 2 for a closing error).
\<close>

definition sampleMessage :: "nat \<Rightarrow> byte \<Rightarrow> Response" where
  "sampleMessage idx kind =
     \<lparr>callbackIdx = idx,
      closingError = (if kind = 2 then Some ''closing'' else None),
      requestError =
        (if kind = 1 then Some \<lparr>errorType = Some Timeout, message = None\<rparr> else None),
      respPointer = None,
      constantResponse = (if kind = 0 then Some OK else None)\<rparr>"

definition sampleDecoder :: "byte list \<Rightarrow> decoded" where
  "sampleDecoder buf =
     (case buf of
        [] \<Rightarrow> RangeError
      | l # rest \<Rightarrow>
          if length rest < unat l then RangeError
          else (case take (unat l) rest of
                  [idx, kind] \<Rightarrow> Decoded (sampleMessage (unat idx) kind) (Suc (unat l))
                | _ \<Rightarrow> OtherError ''bad frame''))"

definition twoPending :: client where
  "twoPending = run newClient [Request (Single (Command 1 [''a''])) None,
     Request (Single (Command 1 [''b''])) None]"

text \<open>
  A stream of two frames, for the request at index 1 a pointer with low word
  \<open>2 ^ 21\<close>, for the request at index 0 the constant OK, cut one byte before the end of the
  first frame.
\<close>

definition pointerFrame :: "byte list" where
  "pointerFrame = [7, 8, 1, 16, 128, 128, 128, 1]"

definition okFrameBytes :: "byte list" where
  "okFrameBytes = [2, 24, 0]"

definition cutChunks :: "byte list list" where
  "cutChunks = [[7, 8, 1, 16, 128, 128, 128], [1, 2, 24, 0]]"

text \<open>
  An answer arrives twice and two commands follow: the second takes the table entry of
  the first.
\<close>

definition lostRun :: "event list" where
  "lostRun = [Request (Single (Command 1 [''a''])) None, Frame okFrame, Frame okFrame,
     Request (Single (Command 1 [''b''])) None, Request (Single (Command 1 [''c''])) None]"

section \<open>Routing values\<close>

text \<open>
  C6. \<^verbatim>\<open>toProtobufRoute\<close> on the slot-id route \<^verbatim>\<open>{type: "primarySlotId", id: 5}\<close>: the
  \<^verbatim>\<open>SlotIdRoute\<close> message is stored under the field \<^verbatim>\<open>slotKeyRoute\<close>, and the
  slot-id route field stays unset.
\<close>

theorem toProtobufRoute_slotId_field:
  "toProtobufRoute (Some (SingleNode (SlotIdTypes primarySlotId 5))) =
     Some \<lparr>simpleRoutes = None, slotKeyRoute = Some (SlotIdRoute Primary 5), slotIdRoute = None\<rparr>"
  by (simp add: Routes_create_def)

section \<open>Promises, the callback table and close\<close>

lemma is_settled_settle: "is_settled (settle q v s) p \<longleftrightarrow> is_settled s p \<or> q = p"
  by (auto simp: settle_def is_settled_def)

lemma filter_settled_settle:
  "filter (\<lambda>x. fst x = p) (settled (settle q v s)) =
     filter (\<lambda>x. fst x = p) (settled s) @ (if q = p \<and> \<not> is_settled s p then [(p, v)] else [])"
  by (auto simp: settle_def)

lemma filter_settled_pending: "\<not> is_settled s p \<Longrightarrow> filter (\<lambda>x. fst x = p) (settled s) = []"
  by (auto simp: is_settled_def filter_empty_conv)

lemma settle_fields [simp]:
  "promiseCallbackFunctions (settle p v s) = promiseCallbackFunctions s"
  "availableCallbackSlots (settle p v s) = availableCallbackSlots s"
  "requestWriter (settle p v s) = requestWriter s"
  "writeInProgress (settle p v s) = writeInProgress s"
  "remainingReadData (settle p v s) = remainingReadData s"
  "isClosed (settle p v s) = isClosed s"
  "socketWrites (settle p v s) = socketWrites s"
  "socketWriteCallbacks (settle p v s) = socketWriteCallbacks s"
  "socketEnded (settle p v s) = socketEnded s"
  "nextPromise (settle p v s) = nextPromise s"
  by (simp_all add: settle_def)

lemma rejectEntry_fields [simp]:
  "promiseCallbackFunctions (rejectEntry e x s) = promiseCallbackFunctions s"
  "availableCallbackSlots (rejectEntry e x s) = availableCallbackSlots s"
  "requestWriter (rejectEntry e x s) = requestWriter s"
  "writeInProgress (rejectEntry e x s) = writeInProgress s"
  "remainingReadData (rejectEntry e x s) = remainingReadData s"
  "isClosed (rejectEntry e x s) = isClosed s"
  "socketWrites (rejectEntry e x s) = socketWrites s"
  "socketWriteCallbacks (rejectEntry e x s) = socketWriteCallbacks s"
  "socketEnded (rejectEntry e x s) = socketEnded s"
  "nextPromise (rejectEntry e x s) = nextPromise s"
  by (simp_all add: rejectEntry_def split: option.splits)

lemma fold_rejectEntry_fields [simp]:
  "promiseCallbackFunctions (fold (rejectEntry e) xs s) = promiseCallbackFunctions s"
  "availableCallbackSlots (fold (rejectEntry e) xs s) = availableCallbackSlots s"
  "requestWriter (fold (rejectEntry e) xs s) = requestWriter s"
  "writeInProgress (fold (rejectEntry e) xs s) = writeInProgress s"
  "remainingReadData (fold (rejectEntry e) xs s) = remainingReadData s"
  "isClosed (fold (rejectEntry e) xs s) = isClosed s"
  "socketWrites (fold (rejectEntry e) xs s) = socketWrites s"
  "socketWriteCallbacks (fold (rejectEntry e) xs s) = socketWriteCallbacks s"
  "socketEnded (fold (rejectEntry e) xs s) = socketEnded s"
  "nextPromise (fold (rejectEntry e) xs s) = nextPromise s"
  by (induction xs arbitrary: s; simp)+

lemma filter_settled_fold_rejectEntry:
  "filter (\<lambda>x. fst x = p) (settled (fold (rejectEntry e) xs s)) =
     filter (\<lambda>x. fst x = p) (settled s) @
       (if Some p \<in> set xs \<and> \<not> is_settled s p
        then [(p, Rejected (RedisError ClosingError e))] else [])"
proof (induction xs arbitrary: s)
  case Nil
  show ?case by simp
next
  case (Cons x xs)
  show ?case
  proof (cases x)
    case None
    then show ?thesis using Cons.IH [of s] by (simp add: rejectEntry_def)
  next
    case (Some q)
    then show ?thesis
      using Cons.IH [of "settle q (Rejected (RedisError ClosingError e)) s"]
      by (auto simp: rejectEntry_def filter_settled_settle is_settled_settle)
  qed
qed

lemma close_fields [simp]:
  "promiseCallbackFunctions (close s e) = promiseCallbackFunctions s"
  "availableCallbackSlots (close s e) = availableCallbackSlots s"
  "requestWriter (close s e) = requestWriter s"
  "writeInProgress (close s e) = writeInProgress s"
  "remainingReadData (close s e) = remainingReadData s"
  "isClosed (close s e) = True"
  "socketWrites (close s e) = socketWrites s"
  "socketWriteCallbacks (close s e) = socketWriteCallbacks s"
  "socketEnded (close s e) = Suc (socketEnded s)"
  "nextPromise (close s e) = nextPromise s"
  by (simp_all add: close_def Let_def)

lemma filter_settled_close:
  "filter (\<lambda>x. fst x = p) (settled (close s e)) =
     filter (\<lambda>x. fst x = p) (settled s) @
       (if Some p \<in> set (promiseCallbackFunctions s) \<and> \<not> is_settled s p
        then [(p, Rejected (RedisError ClosingError e))] else [])"
  by (simp add: close_def Let_def filter_settled_fold_rejectEntry is_settled_def)

lemma sampleClient_eq:
  "sampleClient = newClient\<lparr>promiseCallbackFunctions := [Some 0], nextPromise := 1,
     writeInProgress := True, socketWrites := [[ConnectionRequestMsg ''connect'']],
     socketWriteCallbacks := 1\<rparr>"
  by (simp add: sampleClient_def connectToServer_def newClient_def js_set_def Let_def
      writeOrBufferRequest_def writeBufferedRequestsToSocket_def)

lemma js_get_js_set: "js_get (js_set xs i v) i = Some v"
  by (simp add: js_get_def js_set_def nth_append)

section \<open>Response frames\<close>

text \<open>
  C7. A frame with a request error (and no closing error) rejects the pending promise
  registered at its callback index with the class its kind selects: Disconnect gives
  ConnectionError, ExecAbort gives ExecAbortError, Timeout gives TimeoutError, anything
  else RequestError. The message is the frame's.
\<close>

theorem request_error_rejects:
  assumes "closingError m = None" and "requestError m = Some e"
    and "js_get (promiseCallbackFunctions s) (callbackIdx m) = Some p"
    and "\<not> is_settled s p"
  shows "\<exists>cls. processMessage s m =
       Inr (s\<lparr>availableCallbackSlots := availableCallbackSlots s @ [callbackIdx m],
              settled := settled s @ [(p, Rejected (RedisError cls (message e)))]\<rparr>) \<and>
    (errorType e = Some Disconnect \<longrightarrow> cls = ConnectionError) \<and>
    (errorType e = Some ExecAbort \<longrightarrow> cls = ExecAbortError) \<and>
    (errorType e = Some Timeout \<longrightarrow> cls = TimeoutError) \<and>
    (errorType e \<notin> {Some Disconnect, Some ExecAbort, Some Timeout} \<longrightarrow> cls = RequestError)"
proof -
  have cls: "errorType e \<notin> {Some Disconnect, Some ExecAbort, Some Timeout} \<Longrightarrow>
      getRequestErrorClass (errorType e) = RequestError"
    by (cases "errorType e" rule: getRequestErrorClass.cases) simp_all
  have "processMessage s m =
       Inr (s\<lparr>availableCallbackSlots := availableCallbackSlots s @ [callbackIdx m],
              settled := settled s @
                [(p, Rejected (RedisError (getRequestErrorClass (errorType e)) (message e)))]\<rparr>)"
    using assms by (simp add: processMessage_def settle_def is_settled_def)
  then show ?thesis using cls by auto
qed

theorem request_error_rejects_witness:
  "closingError timeoutFrame = None \<and>
   requestError timeoutFrame = Some \<lparr>errorType = Some Timeout, message = Some ''timed out''\<rparr> \<and>
   js_get (promiseCallbackFunctions sampleClient) (callbackIdx timeoutFrame) = Some 0 \<and>
   \<not> is_settled sampleClient 0 \<and>
   processMessage sampleClient timeoutFrame =
     Inr (sampleClient\<lparr>availableCallbackSlots := [0],
            settled := [(0, Rejected (RedisError TimeoutError (Some ''timed out'')))]\<rparr>)"
  using request_error_rejects [of timeoutFrame
      "\<lparr>errorType = Some Timeout, message = Some ''timed out''\<rparr>" sampleClient 0]
  by (simp add: timeoutFrame_def sampleClient_eq newClient_def is_settled_def js_get_def)

text \<open>
  C10. A frame for a registered pending callback with no closing error, no request
  error, no pointer and a constant response other than OK resolves the promise with
  null and pushes its callback index on the free stack, where \<^verbatim>\<open>getCallbackIndex\<close>
  finds it next.
\<close>

theorem plain_response_resolves_null:
  assumes "closingError m = None" and "requestError m = None" and "respPointer m = None"
    and "constantResponse m \<noteq> Some OK"
    and "js_get (promiseCallbackFunctions s) (callbackIdx m) = Some p"
    and "\<not> is_settled s p"
  shows "processMessage s m =
       Inr (s\<lparr>availableCallbackSlots := availableCallbackSlots s @ [callbackIdx m],
              settled := settled s @ [(p, Resolved Null)]\<rparr>) \<and>
    fst (getCallbackIndex
       (s\<lparr>availableCallbackSlots := availableCallbackSlots s @ [callbackIdx m],
          settled := settled s @ [(p, Resolved Null)]\<rparr>)) = callbackIdx m"
  using assms by (simp add: processMessage_def settle_def is_settled_def getCallbackIndex_def)

theorem plain_response_resolves_null_witness:
  "closingError nullFrame = None \<and> requestError nullFrame = None \<and>
   respPointer nullFrame = None \<and> constantResponse nullFrame \<noteq> Some OK \<and>
   js_get (promiseCallbackFunctions sampleClient) (callbackIdx nullFrame) = Some 0 \<and>
   \<not> is_settled sampleClient 0 \<and>
   processMessage sampleClient nullFrame =
     Inr (sampleClient\<lparr>availableCallbackSlots := [0], settled := [(0, Resolved Null)]\<rparr>)"
  using plain_response_resolves_null [of nullFrame sampleClient 0]
  by (simp add: nullFrame_def sampleClient_eq newClient_def is_settled_def js_get_def)

text \<open>
  C3. A frame whose callback index 5 has no entry in the table of a client with one
  pending request (the bytes 2, 5, 0 of the sample codec: index 5, constant OK):
  \<^verbatim>\<open>handleReadData\<close> throws a TypeError; the client is not closed, the socket is not
  ended and the pending promise is not settled.
\<close>

theorem unknown_callbackIdx_throws:
  "handleReadData sampleDecoder sampleClient [2, 5, 0] = Some (Thrown TypeError, sampleClient) \<and>
   \<not> isClosed sampleClient \<and> socketEnded sampleClient = 0 \<and> \<not> is_settled sampleClient 0"
  by (simp add: handleReadData_def readBuffer_def handleLoop.simps processMessage_def
      sampleDecoder_def sampleMessage_def sampleClient_eq newClient_def js_get_def is_settled_def)

section \<open>The write path\<close>

lemma write_inv_newClient: "write_inv newClient"
  by (simp add: write_inv_def newClient_def)

lemma writeOrBufferRequest_inv:
  assumes "write_inv s"
  shows "write_inv (writeOrBufferRequest s msg)"
    and "transmitted (writeOrBufferRequest s msg) = transmitted s @ [msg]"
  using assms
  by (auto simp: write_inv_def transmitted_def writeOrBufferRequest_def Let_def
      writeBufferedRequestsToSocket_def)

lemma socketWriteCallback_inv:
  assumes "write_inv s" and "socketWriteCallbacks s \<noteq> 0"
  shows "write_inv (socketWriteCallback s)"
    and "transmitted (socketWriteCallback s) = transmitted s"
  using assms
  by (auto simp: write_inv_def transmitted_def socketWriteCallback_def Let_def
      writeBufferedRequestsToSocket_def)

lemma writeRun_inv:
  "write_inv s \<Longrightarrow> writeRun s evs = Some s' \<Longrightarrow>
     write_inv s' \<and> transmitted s' = transmitted s @ submitted evs"
proof (induction s evs rule: writeRun.induct)
  case (1 s)
  then show ?case by simp
next
  case (2 s msg evs)
  then show ?case by (simp add: writeOrBufferRequest_inv)
next
  case (3 s evs)
  then show ?case by (simp add: socketWriteCallback_inv split: if_splits)
qed

lemma next_drain_takes_buffer:
  assumes "write_inv s" and "writeInProgress s"
  shows "socketWrites (socketWriteCallback (writeOrBufferRequest s msg)) =
           socketWrites s @ [requestWriter s @ [msg]]"
    and "requestWriter (socketWriteCallback (writeOrBufferRequest s msg)) = []"
  using assms
  by (auto simp: write_inv_def socketWriteCallback_def writeOrBufferRequest_def Let_def
      writeBufferedRequestsToSocket_def)

text \<open>
  C5. After any run of the write path from a new client, the buffers written to the
  socket, in order, followed by the content of the request writer are exactly the
  submitted requests in submission order: nothing is dropped, duplicated or reordered.
  At most one write callback is outstanding, \<^verbatim>\<open>writeInProgress\<close> says whether one is,
  and the writer is empty when none is. A request submitted while a write is in progress
  is appended to the writer, not written, and the next firing of the callback writes the
  whole writer, this request included.
\<close>

theorem writes_in_submission_order:
  assumes "writeRun newClient evs = Some s"
  shows "concat (socketWrites s) @ requestWriter s = submitted evs \<and>
    socketWriteCallbacks s \<le> 1 \<and>
    (writeInProgress s \<longleftrightarrow> socketWriteCallbacks s = 1) \<and>
    (\<not> writeInProgress s \<longrightarrow> requestWriter s = []) \<and>
    (writeInProgress s \<longrightarrow>
       (\<forall>msg. requestWriter (writeOrBufferRequest s msg) = requestWriter s @ [msg] \<and>
              socketWrites (writeOrBufferRequest s msg) = socketWrites s \<and>
              socketWrites (socketWriteCallback (writeOrBufferRequest s msg)) =
                socketWrites s @ [requestWriter s @ [msg]]))"
proof -
  have inv: "write_inv s" and tr: "transmitted s = transmitted newClient @ submitted evs"
    using writeRun_inv [OF write_inv_newClient assms] by simp_all
  have "transmitted newClient = []" by (simp add: transmitted_def newClient_def)
  with tr have "concat (socketWrites s) @ requestWriter s = submitted evs"
    by (simp add: transmitted_def)
  moreover have "writeInProgress s \<Longrightarrow>
      requestWriter (writeOrBufferRequest s msg) = requestWriter s @ [msg] \<and>
      socketWrites (writeOrBufferRequest s msg) = socketWrites s" for msg
    by (simp add: writeOrBufferRequest_def Let_def)
  ultimately show ?thesis
    using inv next_drain_takes_buffer(1) [OF inv] by (simp add: write_inv_def)
qed

theorem writes_in_submission_order_witness:
  "writeRun newClient [Submit msgA, Submit msgB, Submit msgC, SocketWritten] =
     Some (newClient\<lparr>writeInProgress := True, socketWrites := [[msgA], [msgB, msgC]],
             socketWriteCallbacks := 1\<rparr>) \<and>
   concat [[msgA], [msgB, msgC]] = submitted [Submit msgA, Submit msgB, Submit msgC, SocketWritten]"
  using writes_in_submission_order [of "[Submit msgA, Submit msgB, Submit msgC, SocketWritten]"
      "newClient\<lparr>writeInProgress := True, socketWrites := [[msgA], [msgB, msgC]],
             socketWriteCallbacks := 1\<rparr>"]
  by (simp add: newClient_def writeOrBufferRequest_def Let_def socketWriteCallback_def
      writeBufferedRequestsToSocket_def)

section \<open>Callback indices\<close>

lemma is_settled_fold_rejectEntry:
  "is_settled (fold (rejectEntry e) xs s) p \<longleftrightarrow> is_settled s p \<or> Some p \<in> set xs"
  by (induction xs arbitrary: s)
     (auto simp: rejectEntry_def is_settled_settle split: option.splits)

lemma is_settled_close:
  "is_settled (close s e) p \<longleftrightarrow> is_settled s p \<or> Some p \<in> set (promiseCallbackFunctions s)"
proof -
  have "is_settled (close s e) p \<longleftrightarrow>
      is_settled (fold (rejectEntry e) (promiseCallbackFunctions s) (s\<lparr>isClosed := True\<rparr>)) p"
    by (simp add: close_def Let_def is_settled_def)
  then show ?thesis by (simp add: is_settled_fold_rejectEntry) (simp add: is_settled_def)
qed

lemma slots_inv_newClient: "slots_inv newClient"
  by (simp add: slots_inv_def newClient_def)

lemma slots_inv_close: "slots_inv s \<Longrightarrow> slots_inv (close s e)"
  by (simp add: slots_inv_def is_settled_close) blast

lemma writeBufferedRequestsToSocket_fields [simp]:
  "promiseCallbackFunctions (writeBufferedRequestsToSocket s) = promiseCallbackFunctions s"
  "availableCallbackSlots (writeBufferedRequestsToSocket s) = availableCallbackSlots s"
  "settled (writeBufferedRequestsToSocket s) = settled s"
  "nextPromise (writeBufferedRequestsToSocket s) = nextPromise s"
  "isClosed (writeBufferedRequestsToSocket s) = isClosed s"
  "remainingReadData (writeBufferedRequestsToSocket s) = remainingReadData s"
  by (simp_all add: writeBufferedRequestsToSocket_def)

lemma writeOrBufferRequest_fields [simp]:
  "promiseCallbackFunctions (writeOrBufferRequest s msg) = promiseCallbackFunctions s"
  "availableCallbackSlots (writeOrBufferRequest s msg) = availableCallbackSlots s"
  "settled (writeOrBufferRequest s msg) = settled s"
  "nextPromise (writeOrBufferRequest s msg) = nextPromise s"
  "isClosed (writeOrBufferRequest s msg) = isClosed s"
  "remainingReadData (writeOrBufferRequest s msg) = remainingReadData s"
  by (simp_all add: writeOrBufferRequest_def Let_def)

lemma socketWriteCallback_fields [simp]:
  "promiseCallbackFunctions (socketWriteCallback s) = promiseCallbackFunctions s"
  "availableCallbackSlots (socketWriteCallback s) = availableCallbackSlots s"
  "settled (socketWriteCallback s) = settled s"
  "nextPromise (socketWriteCallback s) = nextPromise s"
  "isClosed (socketWriteCallback s) = isClosed s"
  "remainingReadData (socketWriteCallback s) = remainingReadData s"
  by (simp_all add: socketWriteCallback_def Let_def)

lemma slots_inv_cong:
  assumes "slots_inv s"
    and "promiseCallbackFunctions t = promiseCallbackFunctions s"
    and "availableCallbackSlots t = availableCallbackSlots s"
    and "settled t = settled s" and "nextPromise t = nextPromise s"
  shows "slots_inv t"
  using assms by (simp add: slots_inv_def is_settled_def)

lemma slots_inv_written: "slots_inv s \<Longrightarrow> slots_inv (socketWriteCallback s)"
  by (erule slots_inv_cong) simp_all

lemma slots_inv_free_empty:
  "slots_inv s \<Longrightarrow> promiseCallbackFunctions s = [] \<Longrightarrow> availableCallbackSlots s = []"
  by (cases "availableCallbackSlots s") (auto simp: slots_inv_def js_get_def)

lemma slots_inv_connect:
  assumes "slots_inv s" and "promiseCallbackFunctions s = []"
  shows "slots_inv (snd (connectToServer s request))"
proof -
  let ?t = "s\<lparr>nextPromise := Suc (nextPromise s), promiseCallbackFunctions := [Some (nextPromise s)]\<rparr>"
  have free: "availableCallbackSlots s = []" using assms by (rule slots_inv_free_empty)
  have "\<forall>p < nextPromise s. is_settled s p" using assms by (auto simp: slots_inv_def)
  then have "slots_inv ?t" using free
    by (auto simp: slots_inv_def is_settled_def less_Suc_eq)
  moreover have "snd (connectToServer s request) = writeOrBufferRequest ?t (ConnectionRequestMsg request)"
    using assms(2) by (simp add: connectToServer_def Let_def js_set_def)
  ultimately show ?thesis by (auto elim: slots_inv_cong)
qed

lemma slots_inv_frame:
  assumes "slots_inv s" and "closingError m = None" and "awaiting s (callbackIdx m)"
  shows "\<exists>p v. js_get (promiseCallbackFunctions s) (callbackIdx m) = Some p \<and>
     processMessage s m =
       Inr (settle p v (s\<lparr>availableCallbackSlots := availableCallbackSlots s @ [callbackIdx m]\<rparr>))"
  using assms
  by (auto simp: processMessage_def awaiting_def Let_def split: option.splits Pointer.splits)

lemma is_settled_updates [simp]:
  "is_settled (s\<lparr>availableCallbackSlots := a\<rparr>) = is_settled s"
  "is_settled (s\<lparr>promiseCallbackFunctions := b\<rparr>) = is_settled s"
  "is_settled (s\<lparr>nextPromise := c\<rparr>) = is_settled s"
  "is_settled (s\<lparr>isClosed := d\<rparr>) = is_settled s"
  "is_settled (s\<lparr>remainingReadData := f\<rparr>) = is_settled s"
  by (simp_all add: is_settled_def fun_eq_iff)

lemma slots_inv_settle_push:
  assumes "slots_inv s" and "js_get (promiseCallbackFunctions s) i = Some p"
    and "i \<notin> set (availableCallbackSlots s)"
  shows "slots_inv (settle p v (s\<lparr>availableCallbackSlots := availableCallbackSlots s @ [i]\<rparr>))"
  using assms unfolding slots_inv_def
  by (simp add: is_settled_settle) blast

lemma slots_inv_processMessage:
  assumes "slots_inv s" and "closingError m \<noteq> None \<or> awaiting s (callbackIdx m)"
  shows "slots_inv (case processMessage s m of Inl (ex, s1) \<Rightarrow> s1 | Inr s1 \<Rightarrow> s1)"
proof (cases "closingError m")
  case (Some e)
  then show ?thesis using assms(1) by (simp add: processMessage_def slots_inv_close)
next
  case None
  with assms(2) have aw: "awaiting s (callbackIdx m)" by simp
  from slots_inv_frame [OF assms(1) None aw] obtain p v where
    p: "js_get (promiseCallbackFunctions s) (callbackIdx m) = Some p" and
    pm: "processMessage s m =
       Inr (settle p v (s\<lparr>availableCallbackSlots := availableCallbackSlots s @ [callbackIdx m]\<rparr>))"
    by blast
  from aw have "callbackIdx m \<notin> set (availableCallbackSlots s)" by (simp add: awaiting_def)
  from slots_inv_settle_push [OF assms(1) p this] show ?thesis by (simp add: pm)
qed

lemma getCallbackIndex_settled_slot:
  assumes "slots_inv s"
  shows "js_get (promiseCallbackFunctions s) (fst (getCallbackIndex s)) = Some p \<Longrightarrow> is_settled s p"
proof (cases "availableCallbackSlots s = []")
  case True
  assume "js_get (promiseCallbackFunctions s) (fst (getCallbackIndex s)) = Some p"
  with True show ?thesis by (simp add: getCallbackIndex_def js_get_def)
next
  case False
  assume p: "js_get (promiseCallbackFunctions s) (fst (getCallbackIndex s)) = Some p"
  from False have "last (availableCallbackSlots s) \<in> set (availableCallbackSlots s)" by simp
  with assms obtain q where
    "js_get (promiseCallbackFunctions s) (last (availableCallbackSlots s)) = Some q" "is_settled s q"
    unfolding slots_inv_def by blast
  with p False show ?thesis by (simp add: getCallbackIndex_def)
qed

lemma slots_inv_request:
  assumes "slots_inv s" and "createWritePromise s command rt = Inr (p, t)"
  shows "slots_inv t"
proof -
  let ?tbl = "promiseCallbackFunctions s" and ?free = "availableCallbackSlots s"
  let ?n = "nextPromise s"
  from assms(2) have p: "p = ?n" and "\<not> isClosed s"
    by (auto simp: createWritePromise_def Let_def split: if_splits prod.splits)
  show ?thesis
  proof (cases "?free = []")
    case True
    let ?u = "s\<lparr>nextPromise := Suc ?n, promiseCallbackFunctions := ?tbl @ [Some ?n]\<rparr>"
    have fresh: "Some ?n \<notin> set ?tbl"
      using assms(1) by (auto simp: slots_inv_def in_set_conv_nth)
    have "slots_inv ?u"
      using assms(1) True fresh
      by (auto simp: slots_inv_def nth_append less_Suc_eq)
    moreover have "\<exists>msg. t = writeOrBufferRequest ?u msg"
      using assms(2) True \<open>\<not> isClosed s\<close>
      by (auto simp: createWritePromise_def Let_def getCallbackIndex_def js_set_def
          writeOrBufferRedisRequest_def)
    ultimately show ?thesis by (auto elim: slots_inv_cong)
  next
    case False
    let ?i = "last ?free"
    let ?u = "s\<lparr>nextPromise := Suc ?n, availableCallbackSlots := butlast ?free,
                promiseCallbackFunctions := ?tbl[?i := Some ?n]\<rparr>"
    from False have mem: "?i \<in> set ?free" by simp
    with assms(1) obtain q where q: "js_get ?tbl ?i = Some q" "is_settled s q"
      by (auto simp: slots_inv_def)
    then have lt: "?i < length ?tbl" and nth: "?tbl ! ?i = Some q"
      by (auto simp: js_get_def split: if_splits)
    have fresh: "Some ?n \<notin> set ?tbl"
      using assms(1) by (auto simp: slots_inv_def in_set_conv_nth)
    have d1: "distinct (butlast ?free)" using assms(1) by (simp add: slots_inv_def distinct_butlast)
    have notin: "?i \<notin> set (butlast ?free)"
      using assms(1) False
      by (metis append_butlast_last_id distinct_append distinct.simps(2) disjoint_iff
          list.set_intros(1) slots_inv_def)
    have d2: "distinct (?tbl[?i := Some ?n])"
      using assms(1) fresh lt by (simp add: slots_inv_def distinct_list_update)
    have a: "\<forall>j \<in> set (butlast ?free). \<exists>r. js_get (?tbl[?i := Some ?n]) j = Some r \<and> is_settled s r"
    proof
      fix j assume j: "j \<in> set (butlast ?free)"
      then have "j \<in> set ?free" by (rule in_set_butlastD)
      with assms(1) obtain r where "js_get ?tbl j = Some r" "is_settled s r"
        by (auto simp: slots_inv_def)
      moreover have "j \<noteq> ?i" using j notin by auto
      ultimately show "\<exists>r. js_get (?tbl[?i := Some ?n]) j = Some r \<and> is_settled s r"
        by (auto simp: js_get_def split: if_splits)
    qed
    have b: "\<forall>j < length ?tbl. \<exists>r. ?tbl[?i := Some ?n] ! j = Some r \<and> r < Suc ?n"
    proof (intro allI impI)
      fix j assume j: "j < length ?tbl"
      show "\<exists>r. ?tbl[?i := Some ?n] ! j = Some r \<and> r < Suc ?n"
      proof (cases "j = ?i")
        case True
        with j show ?thesis by simp
      next
        case False
        from assms(1) j obtain r where "?tbl ! j = Some r" "r < ?n"
          unfolding slots_inv_def by blast
        with False show ?thesis by (simp add: less_Suc_eq)
      qed
    qed
    have c: "\<forall>r < Suc ?n. \<not> is_settled s r \<longrightarrow> Some r \<in> set (?tbl[?i := Some ?n])"
    proof (intro allI impI)
      fix r assume r: "r < Suc ?n" "\<not> is_settled s r"
      show "Some r \<in> set (?tbl[?i := Some ?n])"
      proof (cases "r = ?n")
        case True
        then show ?thesis using lt by (simp add: set_update_memI)
      next
        case False
        with r assms(1) have "Some r \<in> set ?tbl" by (auto simp: slots_inv_def)
        then obtain j where j: "j < length ?tbl" "?tbl ! j = Some r"
          by (auto simp: in_set_conv_nth)
        with q r nth have "j \<noteq> ?i" by auto
        with j show ?thesis by (auto simp: in_set_conv_nth nth_list_update intro!: exI [of _ j])
      qed
    qed
    have "slots_inv ?u" using d1 d2 a b c by (simp add: slots_inv_def)
    moreover have "\<exists>msg. t = writeOrBufferRequest ?u msg"
      using assms(2) False lt \<open>\<not> isClosed s\<close>
      by (auto simp: createWritePromise_def Let_def getCallbackIndex_def js_set_def
          writeOrBufferRedisRequest_def)
    ultimately show ?thesis by (auto elim: slots_inv_cong)
  qed
qed

lemma slots_inv_step: "slots_inv s \<Longrightarrow> expected s ev \<Longrightarrow> slots_inv (step s ev)"
proof (cases ev)
  case (Connect request)
  assume "slots_inv s" "expected s ev"
  then show ?thesis using Connect by (simp add: slots_inv_connect)
next
  case (Request command rt)
  assume "slots_inv s" "expected s ev"
  then show ?thesis using Request
    by (auto split: sum.splits dest: slots_inv_request)
next
  case (Frame m)
  assume "slots_inv s" "expected s ev"
  then show ?thesis using Frame slots_inv_processMessage [of s m] by simp
next
  case (Close e)
  assume "slots_inv s" "expected s ev"
  then show ?thesis using Close by (simp add: slots_inv_close)
next
  case Written
  assume "slots_inv s" "expected s ev"
  then show ?thesis using Written by (simp add: slots_inv_written)
qed

lemma slots_inv_run: "slots_inv s \<Longrightarrow> conforms s evs \<Longrightarrow> slots_inv (run s evs)"
  by (induction evs arbitrary: s) (simp_all add: slots_inv_step)


lemmas eval_defs = connectToServer_def createWritePromise_def getCallbackIndex_def
  js_set_def js_get_def writeOrBufferRedisRequest_def writeOrBufferRequest_def
  writeBufferedRequestsToSocket_def processMessage_def settle_def is_settled_def Let_def
  awaiting_def okFrame_def

lemma run_duplicateRun:
  "run newClient duplicateRun =
     newClient\<lparr>promiseCallbackFunctions := [Some 1], availableCallbackSlots := [0],
       requestWriter := [RedisRequestMsg \<lparr>req_callbackIdx = 0,
          singleCommand = Some (Command 1 [''b'']), transaction = None,
          scriptInvocation = None, route = None\<rparr>],
       writeInProgress := True,
       socketWrites := [[RedisRequestMsg \<lparr>req_callbackIdx = 0,
          singleCommand = Some (Command 1 [''a'']), transaction = None,
          scriptInvocation = None, route = None\<rparr>]],
       socketWriteCallbacks := 1, settled := [(0, Resolved OkString)], nextPromise := 2\<rparr>"
  by (simp add: duplicateRun_def newClient_def eval_defs)

text \<open>
  C2, as stated, fails when the core answers one request twice. A command is sent and
  answered, the answer arrives a second time, a second command is sent: it is
  registered at index 0 and is outstanding, and \<^verbatim>\<open>getCallbackIndex\<close> returns 0
  again. The third command takes the table entry of the second, with the same index
  on the wire.
\<close>

theorem duplicate_response_shares_index:
  "js_get (promiseCallbackFunctions (run newClient duplicateRun)) 0 = Some 1 \<and>
   \<not> is_settled (run newClient duplicateRun) 1 \<and>
   fst (getCallbackIndex (run newClient duplicateRun)) = 0 \<and>
   createWritePromise (run newClient duplicateRun) (Single (Command 1 [''c''])) None =
     Inr (2, (run newClient duplicateRun)\<lparr>promiseCallbackFunctions := [Some 2],
        availableCallbackSlots := [], nextPromise := 3,
        requestWriter := requestWriter (run newClient duplicateRun) @
          [RedisRequestMsg \<lparr>req_callbackIdx = 0, singleCommand = Some (Command 1 [''c'']),
             transaction = None, scriptInvocation = None, route = None\<rparr>]\<rparr>)"
  by (simp add: run_duplicateRun eval_defs) (simp add: newClient_def)

text \<open>
  C2, amended. In every state of a conforming run from a new client: each allocated
  promise that is not settled is registered at exactly one index of the table, so the
  indices of outstanding requests are pairwise distinct; \<^verbatim>\<open>getCallbackIndex\<close>
  returns the top of the free stack, or the table's length when the stack is empty,
  and the promise registered at that index, if any, is settled; the free stack holds
  distinct indices of settled promises; an index pushed last is returned first.
\<close>

theorem callback_indices_unique:
  assumes "conforms newClient evs"
  shows "let s = run newClient evs in
    (\<forall>p < nextPromise s. \<not> is_settled s p \<longrightarrow>
       (\<exists>!i. js_get (promiseCallbackFunctions s) i = Some p)) \<and>
    fst (getCallbackIndex s) =
      (if availableCallbackSlots s = [] then length (promiseCallbackFunctions s)
       else last (availableCallbackSlots s)) \<and>
    (\<forall>p. js_get (promiseCallbackFunctions s) (fst (getCallbackIndex s)) = Some p \<longrightarrow>
       is_settled s p) \<and>
    distinct (availableCallbackSlots s) \<and>
    (\<forall>i \<in> set (availableCallbackSlots s).
       \<exists>q. js_get (promiseCallbackFunctions s) i = Some q \<and> is_settled s q) \<and>
    (\<forall>i. getCallbackIndex (s\<lparr>availableCallbackSlots := availableCallbackSlots s @ [i]\<rparr>) =
       (i, s))"
proof -
  define s where "s = run newClient evs"
  have inv: "slots_inv s"
    unfolding s_def using slots_inv_newClient assms by (rule slots_inv_run)
  have uniq: "\<exists>!i. js_get (promiseCallbackFunctions s) i = Some p"
    if "p < nextPromise s" "\<not> is_settled s p" for p
  proof -
    from inv that have "Some p \<in> set (promiseCallbackFunctions s)"
      unfolding slots_inv_def by blast
    then obtain i where i: "i < length (promiseCallbackFunctions s)"
        "promiseCallbackFunctions s ! i = Some p"
      by (auto simp: in_set_conv_nth)
    have d: "distinct (promiseCallbackFunctions s)" using inv by (simp add: slots_inv_def)
    show ?thesis
    proof (rule ex1I [of _ i])
      show "js_get (promiseCallbackFunctions s) i = Some p" using i by (simp add: js_get_def)
    next
      fix j assume "js_get (promiseCallbackFunctions s) j = Some p"
      then have "j < length (promiseCallbackFunctions s)" "promiseCallbackFunctions s ! j = Some p"
        by (auto simp: js_get_def split: if_splits)
      with i d show "j = i" by (metis nth_eq_iff_index_eq)
    qed
  qed
  have idx: "fst (getCallbackIndex s) =
      (if availableCallbackSlots s = [] then length (promiseCallbackFunctions s)
       else last (availableCallbackSlots s))"
    by (simp add: getCallbackIndex_def)
  have lifo: "getCallbackIndex (s\<lparr>availableCallbackSlots := availableCallbackSlots s @ [i]\<rparr>) = (i, s)"
    for i by (simp add: getCallbackIndex_def)
  have free: "distinct (availableCallbackSlots s)"
    "\<forall>i \<in> set (availableCallbackSlots s).
       \<exists>q. js_get (promiseCallbackFunctions s) i = Some q \<and> is_settled s q"
    using inv by (simp_all add: slots_inv_def)
  show ?thesis
    unfolding Let_def s_def [symmetric]
    using uniq idx getCallbackIndex_settled_slot [OF inv] free lifo by blast
qed

lemma run_conformingRun:
  "run newClient conformingRun =
     newClient\<lparr>promiseCallbackFunctions := [Some 1, Some 2], availableCallbackSlots := [0],
       requestWriter := [RedisRequestMsg \<lparr>req_callbackIdx = 0,
          singleCommand = Some (Command 1 [''a'']), transaction = None,
          scriptInvocation = None, route = None\<rparr>,
          RedisRequestMsg \<lparr>req_callbackIdx = 1,
          singleCommand = Some (Command 1 [''b'']), transaction = None,
          scriptInvocation = None, route = None\<rparr>],
       writeInProgress := True,
       socketWrites := [[ConnectionRequestMsg ''connect'']],
       socketWriteCallbacks := 1,
       settled := [(0, Resolved OkString), (1, Resolved OkString)], nextPromise := 3\<rparr>"
  by (simp add: conformingRun_def newClient_def eval_defs)

lemma conforms_conformingRun: "conforms newClient conformingRun"
  by (simp add: conformingRun_def newClient_def eval_defs)

theorem callback_indices_unique_witness:
  "conforms newClient conformingRun \<and>
   2 < nextPromise (run newClient conformingRun) \<and>
   \<not> is_settled (run newClient conformingRun) 2 \<and>
   (\<exists>!i. js_get (promiseCallbackFunctions (run newClient conformingRun)) i = Some 2) \<and>
   fst (getCallbackIndex (run newClient conformingRun)) = 0 \<and>
   js_get (promiseCallbackFunctions (run newClient conformingRun)) 0 = Some 1 \<and>
   is_settled (run newClient conformingRun) 1"
proof -
  have c: "conforms newClient conformingRun" by (rule conforms_conformingRun)
  have a: "2 < nextPromise (run newClient conformingRun)"
    "\<not> is_settled (run newClient conformingRun) 2"
    "fst (getCallbackIndex (run newClient conformingRun)) = 0"
    "js_get (promiseCallbackFunctions (run newClient conformingRun)) 0 = Some 1"
    by (simp_all add: run_conformingRun eval_defs)
  from callback_indices_unique [OF c] a c show ?thesis
    unfolding Let_def by metis
qed

section \<open>Closing the client\<close>

lemma run_lostRun:
  "run newClient lostRun =
     newClient\<lparr>promiseCallbackFunctions := [Some 2],
       requestWriter := [RedisRequestMsg \<lparr>req_callbackIdx = 0,
          singleCommand = Some (Command 1 [''b'']), transaction = None,
          scriptInvocation = None, route = None\<rparr>,
          RedisRequestMsg \<lparr>req_callbackIdx = 0,
          singleCommand = Some (Command 1 [''c'']), transaction = None,
          scriptInvocation = None, route = None\<rparr>],
       writeInProgress := True,
       socketWrites := [[RedisRequestMsg \<lparr>req_callbackIdx = 0,
          singleCommand = Some (Command 1 [''a'']), transaction = None,
          scriptInvocation = None, route = None\<rparr>]],
       socketWriteCallbacks := 1, settled := [(0, Resolved OkString)], nextPromise := 3\<rparr>"
  by (simp add: lostRun_def newClient_def eval_defs)

lemma settled_close_lostRun:
  "settled (close (run newClient lostRun) e) =
     [(0, Resolved OkString), (2, Rejected (RedisError ClosingError e))]"
  by (simp add: run_lostRun close_def rejectEntry_def settle_def is_settled_def Let_def)

text \<open>
  C4, as stated, fails after an answer that arrives twice. Of the two commands sent
  next, the second takes the table entry of the first, whose promise is pending.
  \<^verbatim>\<open>close\<close> rejects the promise in the table and leaves the overwritten one pending.
\<close>

theorem close_misses_overwritten_promise:
  "1 < nextPromise (run newClient lostRun) \<and> \<not> is_settled (run newClient lostRun) 1 \<and>
   \<not> is_settled (close (run newClient lostRun) (Some ''bye'')) 1 \<and>
   settled (close (run newClient lostRun) (Some ''bye'')) =
     [(0, Resolved OkString), (2, Rejected (RedisError ClosingError (Some ''bye'')))]"
proof -
  have "nextPromise (run newClient lostRun) = 3" "settled (run newClient lostRun) = [(0, Resolved OkString)]"
    by (simp_all add: run_lostRun)
  then show ?thesis by (simp add: settled_close_lostRun is_settled_def)
qed

text \<open>
  C4, amended. In every state of a conforming run from a new client, \<^verbatim>\<open>close\<close> marks
  the client closed and ends the socket. Every promise that was allocated and is not
  yet settled is settled exactly once, by a rejection with a ClosingError carrying the
  optional message; a promise settled before keeps its settlement. After \<^verbatim>\<open>close\<close>,
  \<^verbatim>\<open>createWritePromise\<close> and \<^verbatim>\<open>exec\<close>, which is built on it, throw a ClosingError at
  once: no callback slot is taken, nothing is written.
\<close>

theorem close_rejects_pending:
  assumes "conforms newClient evs"
  shows "let s = run newClient evs; t = close s errorMessage in
    isClosed t \<and> socketEnded t = Suc (socketEnded s) \<and>
    (\<forall>p < nextPromise s. \<not> is_settled s p \<longrightarrow>
       filter (\<lambda>x. fst x = p) (settled t) =
         [(p, Rejected (RedisError ClosingError errorMessage))]) \<and>
    (\<forall>p. is_settled s p \<longrightarrow>
       filter (\<lambda>x. fst x = p) (settled t) = filter (\<lambda>x. fst x = p) (settled s)) \<and>
    (\<forall>command rt. createWritePromise t command rt =
       Inl (RedisError ClosingError (Some closedMessage))) \<and>
    (\<forall>commands rt. exec t commands rt =
       Inl (RedisError ClosingError (Some closedMessage)))"
proof -
  define s where "s = run newClient evs"
  have inv: "slots_inv s"
    unfolding s_def using slots_inv_newClient assms by (rule slots_inv_run)
  have reg: "Some p \<in> set (promiseCallbackFunctions s)"
    if "p < nextPromise s" "\<not> is_settled s p" for p
    using inv that unfolding slots_inv_def by blast
  have c: "\<forall>p < nextPromise s. \<not> is_settled s p \<longrightarrow>
      filter (\<lambda>x. fst x = p) (settled (close s errorMessage)) =
        [(p, Rejected (RedisError ClosingError errorMessage))]"
    using reg by (simp add: filter_settled_close filter_settled_pending)
  have d: "\<forall>p. is_settled s p \<longrightarrow>
      filter (\<lambda>x. fst x = p) (settled (close s errorMessage)) =
        filter (\<lambda>x. fst x = p) (settled s)"
    by (simp add: filter_settled_close)
  have e: "\<forall>command rt. createWritePromise (close s errorMessage) command rt =
      Inl (RedisError ClosingError (Some closedMessage))"
    by (simp add: createWritePromise_def)
  then have f: "\<forall>commands rt. exec (close s errorMessage) commands rt =
      Inl (RedisError ClosingError (Some closedMessage))"
    by (simp add: exec_def)
  have a: "isClosed (close s errorMessage)"
    and b: "socketEnded (close s errorMessage) = Suc (socketEnded s)"
    by simp_all
  from a b c d e f show ?thesis
    unfolding Let_def s_def [symmetric] by (intro conjI)
qed

theorem close_rejects_pending_witness:
  "conforms newClient conformingRun \<and> 2 < nextPromise (run newClient conformingRun) \<and>
   \<not> is_settled (run newClient conformingRun) 2 \<and>
   is_settled (run newClient conformingRun) 1 \<and>
   filter (\<lambda>x. fst x = 2) (settled (close (run newClient conformingRun) (Some ''bye''))) =
     [(2, Rejected (RedisError ClosingError (Some ''bye'')))] \<and>
   filter (\<lambda>x. fst x = 1) (settled (close (run newClient conformingRun) (Some ''bye''))) =
     [(1, Resolved OkString)]"
proof -
  have c: "conforms newClient conformingRun" by (rule conforms_conformingRun)
  have a: "2 < nextPromise (run newClient conformingRun)"
    "\<not> is_settled (run newClient conformingRun) 2"
    "is_settled (run newClient conformingRun) 1"
    "filter (\<lambda>x. fst x = 1) (settled (run newClient conformingRun)) = [(1, Resolved OkString)]"
    by (simp_all add: run_conformingRun is_settled_def)
  from close_rejects_pending [OF c, of "Some ''bye''"] a c show ?thesis
    unfolding Let_def by metis
qed

text \<open>
  C8, as stated, fails in the same state: a frame with a closing error calls
  \<^verbatim>\<open>close\<close>, which leaves the overwritten promise pending.
\<close>

theorem closing_error_misses_overwritten_promise:
  "1 < nextPromise (run newClient lostRun) \<and> \<not> is_settled (run newClient lostRun) 1 \<and>
   processMessage (run newClient lostRun) closingFrame =
     Inl (Returned, close (run newClient lostRun) (Some ''core failed'')) \<and>
   \<not> is_settled (close (run newClient lostRun) (Some ''core failed'')) 1"
proof -
  have "nextPromise (run newClient lostRun) = 3" "settled (run newClient lostRun) = [(0, Resolved OkString)]"
    by (simp_all add: run_lostRun)
  then show ?thesis
    by (simp add: settled_close_lostRun is_settled_def processMessage_def closingFrame_def)
qed

text \<open>
  C8, amended. In every state of a conforming run from a new client, a frame with a
  closing error closes the client: the loop body calls \<^verbatim>\<open>close\<close> with the message and
  returns; the client is closed, the socket is ended and every promise that was
  allocated and is not yet settled is rejected once with a ClosingError carrying that
  message.
\<close>

theorem closing_error_closes_client:
  assumes "conforms newClient evs" and "closingError m = Some e"
  shows "let s = run newClient evs; t = close s (Some e) in
    processMessage s m = Inl (Returned, t) \<and> isClosed t \<and>
    socketEnded t = Suc (socketEnded s) \<and>
    (\<forall>p < nextPromise s. \<not> is_settled s p \<longrightarrow>
       filter (\<lambda>x. fst x = p) (settled t) =
         [(p, Rejected (RedisError ClosingError (Some e)))])"
proof -
  define s where "s = run newClient evs"
  have inv: "slots_inv s"
    unfolding s_def using slots_inv_newClient assms(1) by (rule slots_inv_run)
  have reg: "Some p \<in> set (promiseCallbackFunctions s)"
    if "p < nextPromise s" "\<not> is_settled s p" for p
    using inv that unfolding slots_inv_def by blast
  have c: "\<forall>p < nextPromise s. \<not> is_settled s p \<longrightarrow>
      filter (\<lambda>x. fst x = p) (settled (close s (Some e))) =
        [(p, Rejected (RedisError ClosingError (Some e)))]"
    using reg by (simp add: filter_settled_close filter_settled_pending)
  have pm: "processMessage s m = Inl (Returned, close s (Some e))"
    using assms(2) by (simp add: processMessage_def)
  have a: "isClosed (close s (Some e))"
    and b: "socketEnded (close s (Some e)) = Suc (socketEnded s)"
    by simp_all
  from pm a b c show ?thesis
    unfolding Let_def s_def [symmetric] by (intro conjI)
qed

theorem closing_error_closes_client_witness:
  "conforms newClient conformingRun \<and> closingError closingFrame = Some ''core failed'' \<and>
   2 < nextPromise (run newClient conformingRun) \<and>
   \<not> is_settled (run newClient conformingRun) 2 \<and>
   processMessage (run newClient conformingRun) closingFrame =
     Inl (Returned, close (run newClient conformingRun) (Some ''core failed'')) \<and>
   filter (\<lambda>x. fst x = 2)
     (settled (close (run newClient conformingRun) (Some ''core failed''))) =
     [(2, Rejected (RedisError ClosingError (Some ''core failed'')))]"
proof -
  have c: "conforms newClient conformingRun" by (rule conforms_conformingRun)
  have f: "closingError closingFrame = Some ''core failed''" by (simp add: closingFrame_def)
  have a: "2 < nextPromise (run newClient conformingRun)"
    "\<not> is_settled (run newClient conformingRun) 2"
    by (simp_all add: run_conformingRun is_settled_def)
  from closing_error_closes_client [OF c f] a c f show ?thesis
    unfolding Let_def by metis
qed

section \<open>Transactions\<close>

text \<open>
  C9. \<^verbatim>\<open>exec\<close> of two commands with the slot-id route
  \<^verbatim>\<open>{type: "primarySlotId", id: 5}\<close> on a new client: one promise is registered at
  callback index 0, one RedisRequest with that index and a transaction of the two
  commands in order goes to the socket in one write. Its route holds the
  \<^verbatim>\<open>SlotIdRoute\<close> under the field \<^verbatim>\<open>slotKeyRoute\<close>; the slot-id route field is unset.
\<close>

theorem exec_slotId_route_under_slotKeyRoute:
  "exec newClient [Command 1 [''SET'', ''k'', ''1''], Command 2 [''INCR'', ''k'']]
      (Some (SlotIdTypes primarySlotId 5)) =
     Inr (0, newClient\<lparr>promiseCallbackFunctions := [Some 0], nextPromise := 1,
       writeInProgress := True, socketWriteCallbacks := 1,
       socketWrites := [[RedisRequestMsg \<lparr>req_callbackIdx = 0, singleCommand = None,
          transaction = Some [Command 1 [''SET'', ''k'', ''1''], Command 2 [''INCR'', ''k'']],
          scriptInvocation = None,
          route = Some \<lparr>simpleRoutes = None, slotKeyRoute = Some (SlotIdRoute Primary 5),
                        slotIdRoute = None\<rparr>\<rparr>]]\<rparr>)"
  by (simp add: exec_def createWritePromise_def getCallbackIndex_def Let_def js_set_def
      writeOrBufferRedisRequest_def writeOrBufferRequest_def writeBufferedRequestsToSocket_def
      newClient_def Routes_create_def)

section \<open>Partial reads\<close>

lemmas reader_defs = decodeDelimited_def uint32_def uint64_def byteAt_def lowBits_def isLast_def
  skipType_def skip_def emptyResponse_def Let_def

lemma m1: "decodeDelimited [7, 8, 1, 16, 128, 128, 128] =
    Some (Decoded \<lparr>callbackIdx = 1, closingError = None, requestError = None,
      respPointer = Some (Long 0 0), constantResponse = None\<rparr> 8)"
  by (simp add: reader_defs)

lemma m2: "decodeDelimited [1, 2, 24, 0] = Some RangeError"
  by (simp add: reader_defs)

lemma m3: "decodeDelimited (pointerFrame @ okFrameBytes) =
    Some (Decoded \<lparr>callbackIdx = 1, closingError = None, requestError = None,
      respPointer = Some (Long 0 2097152), constantResponse = None\<rparr> 8)"
  by (simp add: reader_defs pointerFrame_def okFrameBytes_def)

lemma m4: "decodeDelimited okFrameBytes =
    Some (Decoded \<lparr>callbackIdx = 0, closingError = None, requestError = None,
      respPointer = None, constantResponse = Some OK\<rparr> 3)"
  by (simp add: reader_defs okFrameBytes_def)

lemma m5: "decodeDelimited pointerFrame =
    Some (Decoded \<lparr>callbackIdx = 1, closingError = None, requestError = None,
      respPointer = Some (Long 0 2097152), constantResponse = None\<rparr> 8)"
  by (simp add: reader_defs pointerFrame_def)

lemma m6: "decodeDelimited [7, 8, 1, 16, 128, 128] = Some RangeError"
  by (simp add: reader_defs)

lemma m7: "decodeDelimited [1] = Some RangeError"
  by (simp add: reader_defs)

lemma twoPending_eq:
  "twoPending = newClient\<lparr>promiseCallbackFunctions := [Some 0, Some 1],
       requestWriter := [RedisRequestMsg \<lparr>req_callbackIdx = 1,
          singleCommand = Some (Command 1 [''b'']), transaction = None,
          scriptInvocation = None, route = None\<rparr>],
       writeInProgress := True,
       socketWrites := [[RedisRequestMsg \<lparr>req_callbackIdx = 0,
          singleCommand = Some (Command 1 [''a'']), transaction = None,
          scriptInvocation = None, route = None\<rparr>]],
       socketWriteCallbacks := 1, nextPromise := 2\<rparr>"
  by (simp add: twoPending_def newClient_def eval_defs)

text \<open>
  With any decoder that is the model where the model speaks: the stream fed as one
  chunk, and fed as the two chunks.
\<close>

lemma cut_pointer_frame_any_decoder:
  assumes "\<forall>b d. decodeDelimited b = Some d \<longrightarrow> dec b = d"
  shows "concat cutChunks = pointerFrame @ okFrameBytes \<and>
    feed dec twoPending [pointerFrame @ okFrameBytes] =
      Some (None, twoPending\<lparr>availableCallbackSlots := [1, 0],
        settled := [(1, Resolved (ValueFromSplitPointer 0 2097152)), (0, Resolved OkString)]\<rparr>) \<and>
    feed dec twoPending cutChunks =
      Some (None, twoPending\<lparr>availableCallbackSlots := [1],
        remainingReadData := Some [1, 2, 24, 0],
        settled := [(1, Resolved (ValueFromSplitPointer 0 0))]\<rparr>)"
proof -
  have d1: "dec [7, 8, 1, 16, 128, 128, 128] =
      Decoded \<lparr>callbackIdx = 1, closingError = None, requestError = None,
        respPointer = Some (Long 0 0), constantResponse = None\<rparr> 8"
    using assms m1 by blast
  have d2: "dec [1, 2, 24, 0] = RangeError" using assms m2 by blast
  have d3: "dec [7, 8, 1, 16, 128, 128, 128, 1, 2, 24, 0] =
      Decoded \<lparr>callbackIdx = 1, closingError = None, requestError = None,
        respPointer = Some (Long 0 2097152), constantResponse = None\<rparr> 8"
    using assms m3 by (simp add: pointerFrame_def okFrameBytes_def)
  have d4: "dec [2, 24, 0] =
      Decoded \<lparr>callbackIdx = 0, closingError = None, requestError = None,
        respPointer = None, constantResponse = Some OK\<rparr> 3"
    using assms m4 by (simp add: okFrameBytes_def)
  have c: "concat cutChunks = pointerFrame @ okFrameBytes"
    by (simp add: cutChunks_def pointerFrame_def okFrameBytes_def)
  have whole: "feed dec twoPending [pointerFrame @ okFrameBytes] =
      Some (None, twoPending\<lparr>availableCallbackSlots := [1, 0],
        settled := [(1, Resolved (ValueFromSplitPointer 0 2097152)), (0, Resolved OkString)]\<rparr>)"
    by (simp add: twoPending_eq pointerFrame_def okFrameBytes_def handleReadData_def
        readBuffer_def handleLoop.simps d3 d4 processMessage_def newClient_def js_get_def
        settle_def is_settled_def)
  have cut: "feed dec twoPending cutChunks =
      Some (None, twoPending\<lparr>availableCallbackSlots := [1],
        remainingReadData := Some [1, 2, 24, 0],
        settled := [(1, Resolved (ValueFromSplitPointer 0 0))]\<rparr>)"
    by (simp add: twoPending_eq cutChunks_def handleReadData_def
        readBuffer_def handleLoop.simps d1 d2 processMessage_def newClient_def js_get_def
        settle_def is_settled_def)
  from c whole cut show ?thesis by (intro conjI)
qed

text \<open>
  C1. A stream of two frames, cut one byte before the end of the first, a pointer
  frame. Fed as one chunk, the request at index 1 is resolved with the pointer
  \<open>2 ^ 21\<close> and the request at index 0 with OK. Fed as the two chunks, the first chunk
  decodes without a RangeError: the reader takes the missing byte for 0, the request at
  index 1 is resolved with the pointer 0 and no byte is kept. The second chunk starts
  with the last byte of the first frame; it is read as an incomplete frame and kept, and
  the request at index 0 is not settled.
\<close>

theorem cut_pointer_frame_loses_frames:
  "concat cutChunks = pointerFrame @ okFrameBytes \<and>
   feed modelDecoder twoPending [pointerFrame @ okFrameBytes] =
      Some (None, twoPending\<lparr>availableCallbackSlots := [1, 0],
        settled := [(1, Resolved (ValueFromSplitPointer 0 2097152)), (0, Resolved OkString)]\<rparr>) \<and>
   feed modelDecoder twoPending cutChunks =
      Some (None, twoPending\<lparr>availableCallbackSlots := [1],
        remainingReadData := Some [1, 2, 24, 0],
        settled := [(1, Resolved (ValueFromSplitPointer 0 0))]\<rparr>)"
  using cut_pointer_frame_any_decoder [of modelDecoder] by (simp add: modelDecoder_def)

end
